theory Spec2Isabelle
  imports Main "HOL-Library.Sublist" "HOL-Library.AList"
begin


section \<open>Python values of the Matrix client\<close>

text \<open>
  A Python \<open>str\<close> is a sequence of code points: \<open>len\<close> counts code points and a slice
  cuts between them.  The defaults of the room summary are Cyrillic, so a string is a list
  of code points rather than a list of bytes.
\<close>

type_synonym ustr = "nat list"

definition py_str :: "string \<Rightarrow> ustr" where
  "py_str s = map of_char s"

text \<open>
  What \<open>response.json()\<close> returns.  An object is the list of its bindings in insertion
  order; a lookup takes the first binding of a key, and \<open>AList.clearjunk\<close> gives the
  bindings that are live.  Numbers are integers: the client reads no numeric field.
\<close>

datatype json =
    JNull
  | JBool bool
  | JInt int
  | JStr ustr
  | JArr "json list"
  | JObj "(ustr \<times> json) list"

datatype py_error = AttributeError | TypeError | KeyError

fun bind :: "py_error + 'a \<Rightarrow> ('a \<Rightarrow> py_error + 'b) \<Rightarrow> py_error + 'b" where
  "bind (Inl e) f = Inl e"
| "bind (Inr v) f = f v"

text \<open>\<open>d.get(k, default)\<close>: only a dict has the method.\<close>

fun dict_get :: "json \<Rightarrow> ustr \<Rightarrow> json \<Rightarrow> py_error + json" where
  "dict_get (JObj kvs) k d = Inr (case map_of kvs k of None \<Rightarrow> d | Some v \<Rightarrow> v)"
| "dict_get _ k d = Inl AttributeError"

text \<open>\<open>bool(v)\<close>, as \<open>if v\<close> and \<open>not v\<close> compute it.\<close>

fun truthy :: "json \<Rightarrow> bool" where
  "truthy JNull = False"
| "truthy (JBool b) = b"
| "truthy (JInt i) = (i \<noteq> 0)"
| "truthy (JStr s) = (s \<noteq> [])"
| "truthy (JArr xs) = (xs \<noteq> [])"
| "truthy (JObj kvs) = (kvs \<noteq> [])"

text \<open>
  \<open>for x in v\<close>: a list gives its elements, a dict its keys, a string its characters;
  nothing else is iterable.  \<open>reversed(v)\<close> accepts the same three.
\<close>

fun py_iter :: "json \<Rightarrow> py_error + json list" where
  "py_iter (JArr xs) = Inr xs"
| "py_iter (JObj kvs) = Inr (map (\<lambda>kv. JStr (fst kv)) (AList.clearjunk kvs))"
| "py_iter (JStr s) = Inr (map (\<lambda>c. JStr [c]) s)"
| "py_iter _ = Inl TypeError"

definition py_reversed :: "json \<Rightarrow> py_error + json list" where
  "py_reversed v = bind (py_iter v) (\<lambda>xs. Inr (rev xs))"

text \<open>\<open>len(v)\<close>.\<close>

fun py_len :: "json \<Rightarrow> py_error + nat" where
  "py_len (JStr s) = Inr (length s)"
| "py_len (JArr xs) = Inr (length xs)"
| "py_len (JObj kvs) = Inr (length (AList.clearjunk kvs))"
| "py_len _ = Inl TypeError"

text \<open>
  \<open>k in v\<close> for a string \<open>k\<close>: a key of a dict, an element of a list, a substring of
  a string.
\<close>

fun py_contains :: "ustr \<Rightarrow> json \<Rightarrow> py_error + bool" where
  "py_contains k (JObj kvs) = Inr (map_of kvs k \<noteq> None)"
| "py_contains k (JArr xs) = Inr (JStr k \<in> set xs)"
| "py_contains k (JStr s) = Inr (sublist k s)"
| "py_contains k _ = Inl TypeError"

text \<open>\<open>v[k]\<close> for a string \<open>k\<close>: lists and strings take integer indices only.\<close>

fun py_getitem :: "json \<Rightarrow> ustr \<Rightarrow> py_error + json" where
  "py_getitem (JObj kvs) k = (case map_of kvs k of None \<Rightarrow> Inl KeyError | Some v \<Rightarrow> Inr v)"
| "py_getitem _ k = Inl TypeError"


section \<open>The state-event fold of \<open>get_user_chats\<close>\<close>

text \<open>The five locals the loop over \<open>state_events\<close> updates.\<close>

record room_state =
  room_name :: json
  room_topic :: json
  room_alias :: json
  is_encrypted :: bool
  member_count :: int

definition default_name :: ustr where
  "default_name = [1041, 1077, 1079, 32, 1085, 1072, 1079, 1074, 1072, 1085, 1080, 1103]"

definition default_topic :: ustr where
  "default_topic = [1053, 1077, 1090, 32, 1086, 1087, 1080, 1089, 1072, 1085, 1080, 1103]"

definition default_alias :: ustr where
  "default_alias = [1053, 1077, 1090, 32, 1072, 1083, 1080, 1072, 1089, 1072]"

definition default_last_message :: ustr where
  "default_last_message =
     [1053, 1077, 1090, 32, 1089, 1086, 1086, 1073, 1097, 1077, 1085, 1080, 1081]"

definition initial_state :: room_state where
  "initial_state =
     \<lparr>room_name = JStr default_name, room_topic = JStr default_topic,
      room_alias = JStr default_alias, is_encrypted = False, member_count = 0\<rparr>"

text \<open>One iteration of \<open>for event in state_events\<close>.\<close>

definition state_step :: "room_state \<Rightarrow> json \<Rightarrow> py_error + room_state" where
  "state_step a event =
     bind (dict_get event (py_str ''type'') JNull) (\<lambda>event_type.
     bind (dict_get event (py_str ''content'') (JObj [])) (\<lambda>content.
       if event_type = JStr (py_str ''m.room.name'') then
         bind (dict_get content (py_str ''name'') (room_name a))
           (\<lambda>v. Inr (a\<lparr>room_name := v\<rparr>))
       else if event_type = JStr (py_str ''m.room.topic'') then
         bind (dict_get content (py_str ''topic'') (room_topic a))
           (\<lambda>v. Inr (a\<lparr>room_topic := v\<rparr>))
       else if event_type = JStr (py_str ''m.room.canonical_alias'') then
         bind (dict_get content (py_str ''alias'') (room_alias a))
           (\<lambda>v. Inr (a\<lparr>room_alias := v\<rparr>))
       else if event_type = JStr (py_str ''m.room.encryption'') then
         Inr (a\<lparr>is_encrypted := True\<rparr>)
       else if event_type = JStr (py_str ''m.room.member'') then
         Inr (a\<lparr>member_count := member_count a + 1\<rparr>)
       else Inr a))"

fun fold_state :: "room_state \<Rightarrow> json list \<Rightarrow> py_error + room_state" where
  "fold_state a [] = Inr a"
| "fold_state a (event # events) = bind (state_step a event) (\<lambda>a'. fold_state a' events)"


definition state_events_of :: "json \<Rightarrow> py_error + json list" where
  "state_events_of room_data =
     bind (dict_get room_data (py_str ''state'') (JObj [])) (\<lambda>state.
     bind (dict_get state (py_str ''events'') (JArr [])) py_iter)"


section \<open>The reverse scan of the timeline\<close>

text \<open>
  \<open>body[:100] + "..." if len(body) > 100 else body\<close>.  A list or a dict has a length too;
  when it is longer than 100 the slice of a dict or the sum of a list and a string
  raises.  Which class of exception it is plays no role: \<open>except Exception\<close> in
  \<open>get_user_chats\<close> catches every one.
\<close>

definition truncate_body :: "json \<Rightarrow> py_error + json" where
  "truncate_body body =
     bind (py_len body) (\<lambda>n.
       if n > 100 then
         (case body of
            JStr s \<Rightarrow> Inr (JStr (take 100 s @ py_str ''...''))
          | _ \<Rightarrow> Inl TypeError)
       else Inr body)"

text \<open>
  \<open>for event in reversed(timeline_events)\<close>; the argument is the reversed sequence, and
  \<open>break\<close> is the branch that does not recur.
\<close>

fun scan_timeline :: "json list \<Rightarrow> py_error + json" where
  "scan_timeline [] = Inr (JStr default_last_message)"
| "scan_timeline (event # older) =
     bind (dict_get event (py_str ''type'') JNull) (\<lambda>event_type.
       if event_type = JStr (py_str ''m.room.message'') then
         bind (dict_get event (py_str ''content'') (JObj [])) (\<lambda>content.
         bind (py_contains (py_str ''body'') content) (\<lambda>has_body.
           if has_body then bind (py_getitem content (py_str ''body'')) truncate_body
           else scan_timeline older))
       else scan_timeline older)"

text \<open>\<open>timeline_events = room_data.get("timeline", {}).get("events", [])\<close>.\<close>

definition timeline_events_of :: "json \<Rightarrow> py_error + json" where
  "timeline_events_of room_data =
     bind (dict_get room_data (py_str ''timeline'') (JObj [])) (\<lambda>timeline.
     dict_get timeline (py_str ''events'') (JArr []))"

text \<open>
  The last message of a room: the timeline is read, reversed by \<open>reversed\<close>, and scanned
  from its most recent event.
\<close>

definition last_message_of :: "json \<Rightarrow> py_error + json" where
  "last_message_of room_data =
     bind (timeline_events_of room_data) (\<lambda>timeline_events.
     bind (py_reversed timeline_events) scan_timeline)"

text \<open>Everything the loop body computes before it asks for the members.\<close>

definition room_fields :: "json \<Rightarrow> py_error + room_state \<times> json" where
  "room_fields room_data =
     bind (state_events_of room_data) (\<lambda>state_events.
     bind (fold_state initial_state state_events) (\<lambda>a.
     bind (last_message_of room_data) (\<lambda>last_message.
       Inr (a, last_message))))"


section \<open>The manager and its HTTP session\<close>

datatype session_state = Open | Closed

datatype endpoint = Login | Sync | Members ustr | Logout

datatype http_method = GET | POST

text \<open>
  A request as the server sees it: the bearer token is in the headers exactly when
  \<open>access_token\<close> is truthy; \<open>payload\<close> is the query parameters or the JSON body.
\<close>

record request =
  req_method :: http_method
  req_endpoint :: endpoint
  req_bearer :: "json option"
  req_payload :: json

text \<open>
  What one request comes to: the client library raises, or there is a response with a
  status and a body that \<open>response.json()\<close> parses (\<open>Some\<close>) or rejects (\<open>None\<close>).
\<close>

datatype http_outcome = ClientError | Response int "json option"

text \<open>The server answers a request knowing every request made before it.\<close>

type_synonym server = "request list \<Rightarrow> request \<Rightarrow> http_outcome"

text \<open>
  The fields of \<open>MatrixChatManager\<close>; \<open>None\<close> is \<open>JNull\<close>.  \<open>requests\<close> is not a field of
  the class: it records every request handed to the session, in order.
\<close>

record manager =
  homeserver :: ustr
  verify_ssl :: bool
  access_token :: json
  user_id :: json
  device_id :: json
  session :: "session_state option"
  requests :: "request list"

text \<open>\<open>__init__\<close>: the server address loses its trailing slashes; nothing else is set.\<close>

definition new_manager :: "ustr \<Rightarrow> bool \<Rightarrow> manager" where
  "new_manager server verify =
     \<lparr>homeserver = rev (dropWhile (\<lambda>c. c = of_char CHR ''/'') (rev server)),
      verify_ssl = verify, access_token = JNull, user_id = JNull, device_id = JNull,
      session = None, requests = []\<rparr>"

definition get_session :: "manager \<Rightarrow> manager" where
  "get_session m =
     (if session m = None \<or> session m = Some Closed then m\<lparr>session := Some Open\<rparr> else m)"

definition close_session :: "manager \<Rightarrow> manager" where
  "close_session m =
     (if session m \<noteq> None \<and> session m \<noteq> Some Closed then m\<lparr>session := Some Closed\<rparr> else m)"

definition get_headers :: "manager \<Rightarrow> json option" where
  "get_headers m = (if truthy (access_token m) then Some (access_token m) else None)"

definition send :: "server \<Rightarrow> manager \<Rightarrow> request \<Rightarrow> http_outcome \<times> manager" where
  "send srv m r = (srv (requests m) r, m\<lparr>requests := requests m @ [r]\<rparr>)"

text \<open>
  \<open>login\<close>.  Any exception (the request, the body that is no JSON, the body that is no
  object) ends in \<open>return False\<close>; the assignments of a successful login happen only
  after the first \<open>data.get\<close> has succeeded.
\<close>

definition login_user :: "ustr \<Rightarrow> ustr" where
  "login_user username =
     (if of_char CHR '':'' \<in> set username
      then dropWhile (\<lambda>c. c = of_char CHR ''@'') (takeWhile (\<lambda>c. c \<noteq> of_char CHR '':'') username)
      else username)"

definition login :: "server \<Rightarrow> manager \<Rightarrow> ustr \<Rightarrow> ustr \<Rightarrow> bool \<times> manager" where
  "login srv m username password =
     (let m1 = get_session m;
          login_data = JObj
            [(py_str ''type'', JStr (py_str ''m.login.password'')),
             (py_str ''identifier'', JObj
                [(py_str ''type'', JStr (py_str ''m.id.user'')),
                 (py_str ''user'', JStr (login_user username))]),
             (py_str ''password'', JStr password)];
          (outcome, m2) = send srv m1
            \<lparr>req_method = POST, req_endpoint = Login, req_bearer = get_headers m1,
             req_payload = login_data\<rparr>
      in case outcome of
           ClientError \<Rightarrow> (False, m2)
         | Response status body \<Rightarrow>
             if status = 200 then
               (case body of
                  Some (JObj kvs) \<Rightarrow>
                    (True, m2\<lparr>access_token := (case map_of kvs (py_str ''access_token'') of
                                                 None \<Rightarrow> JNull | Some v \<Rightarrow> v),
                               user_id := (case map_of kvs (py_str ''user_id'') of
                                                 None \<Rightarrow> JNull | Some v \<Rightarrow> v),
                               device_id := (case map_of kvs (py_str ''device_id'') of
                                                 None \<Rightarrow> JNull | Some v \<Rightarrow> v)\<rparr>)
                | _ \<Rightarrow> (False, m2))
             else (False, m2))"

text \<open>
  \<open>sync\<close>.  The token is tested first.  Every failure after that (the request, a status
  other than 200, a body that is no JSON) returns \<open>None\<close>.
\<close>

definition sync :: "server \<Rightarrow> manager \<Rightarrow> int \<Rightarrow> json \<times> manager" where
  "sync srv m timeout =
     (if \<not> truthy (access_token m) then (JNull, m)
      else
        let m1 = get_session m;
            params = JObj [(py_str ''timeout'', JInt timeout),
                           (py_str ''full_state'', JStr (py_str ''false''))];
            (outcome, m2) = send srv m1
              \<lparr>req_method = GET, req_endpoint = Sync, req_bearer = get_headers m1,
               req_payload = params\<rparr>
        in case outcome of
             ClientError \<Rightarrow> (JNull, m2)
           | Response status body \<Rightarrow>
               if status = 200 then (case body of None \<Rightarrow> (JNull, m2) | Some data \<Rightarrow> (data, m2))
               else (JNull, m2))"

text \<open>\<open>get_room_members\<close>: one entry of the result, then the loop over \<open>chunk\<close>.\<close>

definition member_entry :: "json \<Rightarrow> py_error + json" where
  "member_entry member =
     bind (dict_get member (py_str ''content'') (JObj [])) (\<lambda>content.
     bind (dict_get content (py_str ''displayname'') JNull) (\<lambda>display_name.
     bind (dict_get member (py_str ''state_key'') (JStr [])) (\<lambda>user_id.
       Inr (if truthy display_name then display_name else user_id))))"

fun member_entries :: "json list \<Rightarrow> py_error + json list" where
  "member_entries [] = Inr []"
| "member_entries (member # rest) =
     bind (member_entry member) (\<lambda>x.
     bind (member_entries rest) (\<lambda>xs. Inr (x # xs)))"

definition members_of_response :: "json \<Rightarrow> py_error + json list" where
  "members_of_response data =
     bind (dict_get data (py_str ''chunk'') (JArr [])) (\<lambda>chunk.
     bind (py_iter chunk) member_entries)"

definition get_room_members :: "server \<Rightarrow> manager \<Rightarrow> ustr \<Rightarrow> json list \<times> manager" where
  "get_room_members srv m room_id =
     (if \<not> truthy (access_token m) then ([], m)
      else
        let m1 = get_session m;
            (outcome, m2) = send srv m1
              \<lparr>req_method = GET, req_endpoint = Members room_id, req_bearer = get_headers m1,
               req_payload = JNull\<rparr>
        in case outcome of
             ClientError \<Rightarrow> ([], m2)
           | Response status body \<Rightarrow>
               if status = 200 then
                 (case body of
                    None \<Rightarrow> ([], m2)
                  | Some data \<Rightarrow>
                      (case members_of_response data of
                         Inl e \<Rightarrow> ([], m2)
                       | Inr members \<Rightarrow> (members, m2)))
               else ([], m2))"


section \<open>The room summary and \<open>get_user_chats\<close>\<close>

text \<open>The dict \<open>room_info\<close>, one field for each key.\<close>

record room_info =
  info_room_id :: ustr
  info_name :: json
  info_canonical_alias :: json
  info_member_count :: int
  info_is_encrypted :: bool
  info_topic :: json
  info_last_message :: json
  info_members :: "json list"

definition make_room_info :: "ustr \<Rightarrow> room_state \<Rightarrow> json \<Rightarrow> json list \<Rightarrow> room_info" where
  "make_room_info room_id a last_message members =
     \<lparr>info_room_id = room_id,
      info_name = room_name a,
      info_canonical_alias = room_alias a,
      info_member_count = (if members \<noteq> [] then int (length members) else member_count a),
      info_is_encrypted = is_encrypted a,
      info_topic = room_topic a,
      info_last_message = last_message,
      info_members = (if members \<noteq> [] then take 10 members else [])\<rparr>"

fun py_items :: "json \<Rightarrow> py_error + (ustr \<times> json) list" where
  "py_items (JObj kvs) = Inr (AList.clearjunk kvs)"
| "py_items _ = Inl AttributeError"

text \<open>
  \<open>for room_id, room_data in joined_rooms.items()\<close>; an exception leaves the loop with
  the manager as it is at that moment.
\<close>

fun rooms_loop ::
  "server \<Rightarrow> manager \<Rightarrow> (ustr \<times> json) list \<Rightarrow> room_info list \<Rightarrow> (py_error + room_info list) \<times> manager"
where
  "rooms_loop srv m [] rooms = (Inr rooms, m)"
| "rooms_loop srv m ((room_id, room_data) # rest) rooms =
     (case room_fields room_data of
        Inl e \<Rightarrow> (Inl e, m)
      | Inr (a, last_message) \<Rightarrow>
          (case get_room_members srv m room_id of
             (members, m') \<Rightarrow>
               rooms_loop srv m' rest (rooms @ [make_room_info room_id a last_message members])))"

definition joined_rooms_of :: "json \<Rightarrow> py_error + (ustr \<times> json) list" where
  "joined_rooms_of sync_data =
     bind (dict_get sync_data (py_str ''rooms'') (JObj [])) (\<lambda>rooms.
     bind (dict_get rooms (py_str ''join'') (JObj [])) py_items)"

definition get_user_chats :: "server \<Rightarrow> manager \<Rightarrow> room_info list \<times> manager" where
  "get_user_chats srv m =
     (if \<not> truthy (access_token m) then ([], m)
      else
        case sync srv m 30000 of
          (sync_data, m1) \<Rightarrow>
            if \<not> truthy sync_data then ([], m1)
            else
              (case joined_rooms_of sync_data of
                 Inl e \<Rightarrow> ([], m1)
               | Inr joined_rooms \<Rightarrow>
                   (case rooms_loop srv m1 joined_rooms [] of
                      (Inl e, m2) \<Rightarrow> ([], m2)
                    | (Inr rooms, m2) \<Rightarrow> (rooms, m2))))"

text \<open>
  \<open>logout\<close>.  Without a token it returns at once.  Otherwise the three outcomes of the
  request differ in what is printed only, and the \<open>finally\<close> block runs after each.
\<close>

definition logout :: "server \<Rightarrow> manager \<Rightarrow> manager" where
  "logout srv m =
     (if \<not> truthy (access_token m) then m
      else
        let m1 = get_session m;
            (outcome, m2) = send srv m1
              \<lparr>req_method = POST, req_endpoint = Logout, req_bearer = get_headers m1,
               req_payload = JNull\<rparr>
        in close_session (m2\<lparr>access_token := JNull, user_id := JNull, device_id := JNull\<rparr>))"


section \<open>What the events of a sequence say\<close>

text \<open>
  An event has the type \<open>ty\<close> when \<open>event.get("type")\<close> is that string, and it carries
  \<open>key\<close> when its content is a dict with that key.  \<open>last_carrying\<close> is the event
  closest to the end of a sequence that has the type and carries the key.
\<close>

definition event_type_is :: "string \<Rightarrow> json \<Rightarrow> bool" where
  "event_type_is ty event = (dict_get event (py_str ''type'') JNull = Inr (JStr (py_str ty)))"

definition carried :: "string \<Rightarrow> json \<Rightarrow> json option" where
  "carried key event =
     (case dict_get event (py_str ''content'') (JObj []) of
        Inr (JObj kvs) \<Rightarrow> map_of kvs (py_str key)
      | _ \<Rightarrow> None)"

definition last_carrying :: "string \<Rightarrow> string \<Rightarrow> json list \<Rightarrow> json option" where
  "last_carrying ty key events =
     find (\<lambda>e. event_type_is ty e \<and> carried key e \<noteq> None) (rev events)"

text \<open>
  What one step of the fold leaves in a field that events of type \<open>ty\<close> write from
  \<open>key\<close>.
\<close>

definition written :: "string \<Rightarrow> string \<Rightarrow> json \<Rightarrow> json \<Rightarrow> json" where
  "written ty key old e =
     (if event_type_is ty e then (case carried key e of None \<Rightarrow> old | Some v \<Rightarrow> v) else old)"

text \<open>
  An event, or a membership record, that the loops read without an exception: a dict whose
  \<open>content\<close>, when it has one, is a dict.
\<close>

fun is_dict :: "json \<Rightarrow> bool" where
  "is_dict (JObj kvs) = True"
| "is_dict _ = False"

definition wf_event :: "json \<Rightarrow> bool" where
  "wf_event event =
     (case dict_get event (py_str ''content'') (JObj []) of
        Inr content \<Rightarrow> is_dict content
      | Inl e \<Rightarrow> False)"

text \<open>
  The raw account identifier of a membership record, and the entry \<open>get_room_members\<close>
  appends for it: the display name when it is there and truthy.
\<close>

definition state_key_of :: "json \<Rightarrow> json" where
  "state_key_of member =
     (case dict_get member (py_str ''state_key'') (JStr []) of Inr u \<Rightarrow> u | Inl e \<Rightarrow> JStr [])"

definition resolved_entry :: "json \<Rightarrow> json" where
  "resolved_entry member =
     (case carried ''displayname'' member of
        Some d \<Rightarrow> if truthy d then d else state_key_of member
      | None \<Rightarrow> state_key_of member)"

text \<open>
  The request \<open>get_room_members\<close> sends.
\<close>

definition members_request :: "manager \<Rightarrow> ustr \<Rightarrow> request" where
  "members_request m room_id =
     \<lparr>req_method = GET, req_endpoint = Members room_id, req_bearer = get_headers m,
      req_payload = JNull\<rparr>"

section \<open>The specification, in its own words\<close>

text \<open>
  The field written from \<open>key\<close> by events of type \<open>ty\<close> equals the value carried by the
  last event of that type, and the default when there is none.
\<close>

definition spec_last_write_wins ::
  "string \<Rightarrow> string \<Rightarrow> ustr \<Rightarrow> json list \<Rightarrow> json \<Rightarrow> bool"
where
  "spec_last_write_wins ty key dflt events field =
     (case find (event_type_is ty) (rev events) of
        None \<Rightarrow> field = JStr dflt
      | Some e \<Rightarrow> carried key e = Some field)"

text \<open>
  \<open>last_message\<close> equals the (possibly truncated) body of the message event closest to the
  end, and the default when there is none.
\<close>

definition spec_last_message :: "json list \<Rightarrow> json \<Rightarrow> bool" where
  "spec_last_message timeline field =
     (case find (event_type_is ''m.room.message'') (rev timeline) of
        None \<Rightarrow> field = JStr default_last_message
      | Some e \<Rightarrow> (case carried ''body'' e of
                    None \<Rightarrow> False
                  | Some b \<Rightarrow> truncate_body b = Inr field))"

text \<open>
  The entry of a membership record is its display-name attribute when present, and the raw
  account identifier otherwise.
\<close>

definition spec_member_entry :: "json \<Rightarrow> json" where
  "spec_member_entry member =
     (case carried ''displayname'' member of Some d \<Rightarrow> d | None \<Rightarrow> state_key_of member)"

section \<open>Concrete inputs\<close>

text \<open>
  State events: two naming events among seven; and a naming event followed by a naming
  event whose content is empty.
\<close>

definition example_event :: "string \<Rightarrow> (string \<times> string) list \<Rightarrow> json" where
  "example_event ty content =
     JObj [(py_str ''type'', JStr (py_str ty)),
           (py_str ''content'',
            JObj (map (\<lambda>kv. (py_str (fst kv), JStr (py_str (snd kv)))) content))]"

definition example_state_events :: "json list" where
  "example_state_events =
     [example_event ''m.room.name'' [(''name'', ''Ops'')],
      example_event ''m.room.topic'' [(''topic'', ''Infra'')],
      example_event ''m.room.encryption'' [(''algorithm'', ''m.megolm.v1.aes-sha2'')],
      example_event ''m.room.member'' [(''membership'', ''join'')],
      example_event ''m.room.canonical_alias'' [(''alias'', ''#ops:example.org'')],
      example_event ''m.room.name'' [(''name'', ''Ops-2'')],
      example_event ''m.room.member'' [(''membership'', ''join'')]]"

definition example_state :: room_state where
  "example_state =
     \<lparr>room_name = JStr (py_str ''Ops-2''), room_topic = JStr (py_str ''Infra''),
      room_alias = JStr (py_str ''#ops:example.org''), is_encrypted = True, member_count = 2\<rparr>"

definition cleared_name_events :: "json list" where
  "cleared_name_events =
     [example_event ''m.room.name'' [(''name'', ''Ops'')], example_event ''m.room.name'' []]"

text \<open>
  Timelines: a short message followed by one of 101 characters; and a short message
  followed by a message event whose content is empty.
\<close>

definition example_message :: "ustr \<Rightarrow> json" where
  "example_message b =
     JObj [(py_str ''type'', JStr (py_str ''m.room.message'')),
           (py_str ''content'', JObj [(py_str ''msgtype'', JStr (py_str ''m.text'')),
                                      (py_str ''body'', JStr b)])]"

definition redacted_message :: json where
  "redacted_message =
     JObj [(py_str ''type'', JStr (py_str ''m.room.message'')), (py_str ''content'', JObj [])]"

definition redacted_timeline :: "json list" where
  "redacted_timeline = [example_message (py_str ''hi''), redacted_message]"

definition room_with_timeline :: "json list \<Rightarrow> json" where
  "room_with_timeline events =
     JObj [(py_str ''timeline'', JObj [(py_str ''events'', JArr events)])]"

definition long_body :: ustr where
  "long_body = replicate 101 120"

definition example_timeline :: "json list" where
  "example_timeline = [example_message (py_str ''hi''), example_message long_body]"

text \<open>
  Membership records with a display name, without one, and with an empty one; a roster of
  twelve.
\<close>

definition example_member :: "string \<Rightarrow> string \<Rightarrow> json" where
  "example_member display_name user =
     JObj [(py_str ''type'', JStr (py_str ''m.room.member'')),
           (py_str ''state_key'', JStr (py_str user)),
           (py_str ''content'', JObj [(py_str ''membership'', JStr (py_str ''join'')),
                                      (py_str ''displayname'', JStr (py_str display_name))])]"

definition example_member_without_name :: "string \<Rightarrow> json" where
  "example_member_without_name user =
     JObj [(py_str ''type'', JStr (py_str ''m.room.member'')),
           (py_str ''state_key'', JStr (py_str user)),
           (py_str ''content'', JObj [(py_str ''membership'', JStr (py_str ''join''))])]"

definition example_records :: "json list" where
  "example_records =
     [example_member ''Kim'' ''@kim:example.org'',
      example_member_without_name ''@lee:example.org'',
      example_member [] ''@ann:example.org'']"

definition example_roster :: "json list" where
  "example_roster =
     map (\<lambda>i. JStr [117, 48 + i]) [0..<10]
       @ [JStr (py_str ''Kim''), JStr (py_str ''@lee:example.org'')]"

text \<open>
  Managers before and after a login, and servers that answer the membership request, raise
  in the client library, or refuse everything.
\<close>

definition fresh_manager :: manager where
  "fresh_manager = new_manager (py_str ''https://matrix.example.org/'') False"

definition logged_in :: manager where
  "logged_in =
     \<lparr>homeserver = py_str ''https://matrix.example.org'', verify_ssl = False,
      access_token = JStr (py_str ''syt_token''), user_id = JStr (py_str ''@kim:example.org''),
      device_id = JStr (py_str ''DEVICE''), session = Some Open, requests = []\<rparr>"

definition members_server :: server where
  "members_server history r =
     (case req_endpoint r of
        Members room_id \<Rightarrow> Response 200 (Some (JObj [(py_str ''chunk'', JArr example_records)]))
      | _ \<Rightarrow> Response 404 None)"

definition failing_server :: server where
  "failing_server history r = ClientError"

definition refusing_server :: server where
  "refusing_server history r =
     Response 403 (Some (JObj [(py_str ''errcode'', JStr (py_str ''M_FORBIDDEN'')),
                               (py_str ''error'', JStr (py_str ''Invalid username or password''))]))"

definition failed_login :: manager where
  "failed_login =
     snd (login refusing_server fresh_manager (py_str ''@kim:example.org'') (py_str ''wrong''))"


section \<open>Properties\<close>

subsection \<open>Basic facts\<close>

lemma py_str_eq_iff: "py_str s = py_str t \<longleftrightarrow> s = t"
  unfolding py_str_def by (simp add: inj_map_eq_map inj_on_def)

lemma bind_eq_Inr: "bind x f = Inr y \<longleftrightarrow> (\<exists>v. x = Inr v \<and> f v = Inr y)"
  by (cases x) auto

subsection \<open>One step of the state fold\<close>

lemma event_type_is_obj:
  "event_type_is ty (JObj kvs) \<longleftrightarrow>
     (case map_of kvs (py_str ''type'') of None \<Rightarrow> JNull | Some v \<Rightarrow> v) = JStr (py_str ty)"
  by (simp add: event_type_is_def)

lemma carried_obj:
  "carried key (JObj kvs) =
     (case (case map_of kvs (py_str ''content'') of None \<Rightarrow> JObj [] | Some v \<Rightarrow> v) of
        JObj cs \<Rightarrow> map_of cs (py_str key) | _ \<Rightarrow> None)"
  by (simp add: carried_def)

lemma state_step_Inr:
  assumes "state_step a e = Inr a'"
  shows "a' = a\<lparr>room_name := written ''m.room.name'' ''name'' (room_name a) e,
                 room_topic := written ''m.room.topic'' ''topic'' (room_topic a) e,
                 room_alias := written ''m.room.canonical_alias'' ''alias'' (room_alias a) e,
                 is_encrypted := (is_encrypted a \<or> event_type_is ''m.room.encryption'' e),
                 member_count := member_count a + (if event_type_is ''m.room.member'' e then 1 else 0)\<rparr>"
proof -
  from assms obtain kvs where e: "e = JObj kvs"
    by (cases e) (simp_all add: state_step_def)
  define t where "t = (case map_of kvs (py_str ''type'') of None \<Rightarrow> JNull | Some v \<Rightarrow> v)"
  define c where "c = (case map_of kvs (py_str ''content'') of None \<Rightarrow> JObj [] | Some v \<Rightarrow> v)"
  have ty: "event_type_is ty e \<longleftrightarrow> t = JStr (py_str ty)" for ty
    by (simp add: e event_type_is_obj t_def)
  have ca: "carried key e = (case c of JObj cs \<Rightarrow> map_of cs (py_str key) | _ \<Rightarrow> None)" for key
    by (simp add: e carried_obj c_def)
  have step:
    "state_step a e =
       (if t = JStr (py_str ''m.room.name'') then
          bind (dict_get c (py_str ''name'') (room_name a)) (\<lambda>v. Inr (a\<lparr>room_name := v\<rparr>))
        else if t = JStr (py_str ''m.room.topic'') then
          bind (dict_get c (py_str ''topic'') (room_topic a)) (\<lambda>v. Inr (a\<lparr>room_topic := v\<rparr>))
        else if t = JStr (py_str ''m.room.canonical_alias'') then
          bind (dict_get c (py_str ''alias'') (room_alias a)) (\<lambda>v. Inr (a\<lparr>room_alias := v\<rparr>))
        else if t = JStr (py_str ''m.room.encryption'') then Inr (a\<lparr>is_encrypted := True\<rparr>)
        else if t = JStr (py_str ''m.room.member'') then
          Inr (a\<lparr>member_count := member_count a + 1\<rparr>)
        else Inr a)"
    by (simp add: state_step_def e t_def c_def)
  consider (name) "t = JStr (py_str ''m.room.name'')"
    | (topic) "t = JStr (py_str ''m.room.topic'')"
    | (canonical) "t = JStr (py_str ''m.room.canonical_alias'')"
    | (encryption) "t = JStr (py_str ''m.room.encryption'')"
    | (member) "t = JStr (py_str ''m.room.member'')"
    | (other) "t \<noteq> JStr (py_str ''m.room.name'')" "t \<noteq> JStr (py_str ''m.room.topic'')"
        "t \<noteq> JStr (py_str ''m.room.canonical_alias'')"
        "t \<noteq> JStr (py_str ''m.room.encryption'')" "t \<noteq> JStr (py_str ''m.room.member'')"
    by blast
  then show ?thesis
  proof cases
    case name
    with step assms
    have "bind (dict_get c (py_str ''name'') (room_name a)) (\<lambda>v. Inr (a\<lparr>room_name := v\<rparr>)) = Inr a'"
      by simp
    then obtain cs where "c = JObj cs"
      and "a' = a\<lparr>room_name := (case map_of cs (py_str ''name'') of None \<Rightarrow> room_name a | Some v \<Rightarrow> v)\<rparr>"
      by (cases c) auto
    then show ?thesis
      by (cases a) (simp add: written_def ty ca name py_str_eq_iff split: option.split)
  next
    case topic
    with step assms
    have "bind (dict_get c (py_str ''topic'') (room_topic a)) (\<lambda>v. Inr (a\<lparr>room_topic := v\<rparr>)) = Inr a'"
      by (simp add: py_str_eq_iff)
    then obtain cs where "c = JObj cs"
      and "a' = a\<lparr>room_topic := (case map_of cs (py_str ''topic'') of None \<Rightarrow> room_topic a | Some v \<Rightarrow> v)\<rparr>"
      by (cases c) auto
    then show ?thesis
      by (cases a) (simp add: written_def ty ca topic py_str_eq_iff split: option.split)
  next
    case canonical
    with step assms
    have "bind (dict_get c (py_str ''alias'') (room_alias a)) (\<lambda>v. Inr (a\<lparr>room_alias := v\<rparr>)) = Inr a'"
      by (simp add: py_str_eq_iff)
    then obtain cs where "c = JObj cs"
      and "a' = a\<lparr>room_alias := (case map_of cs (py_str ''alias'') of None \<Rightarrow> room_alias a | Some v \<Rightarrow> v)\<rparr>"
      by (cases c) auto
    then show ?thesis
      by (cases a) (simp add: written_def ty ca canonical py_str_eq_iff split: option.split)
  next
    case encryption
    with step assms have "a' = a\<lparr>is_encrypted := True\<rparr>"
      by (simp add: py_str_eq_iff)
    then show ?thesis
      by (cases a) (simp add: written_def ty encryption py_str_eq_iff)
  next
    case member
    with step assms have "a' = a\<lparr>member_count := member_count a + 1\<rparr>"
      by (simp add: py_str_eq_iff)
    then show ?thesis
      by (cases a) (simp add: written_def ty member py_str_eq_iff)
  next
    case other
    with step assms have "a' = a"
      by simp
    then show ?thesis
      by (cases a) (simp add: written_def ty other)
  qed
qed

lemma state_step_total:
  assumes "wf_event e"
  shows "\<exists>a'. state_step a e = Inr a'"
proof -
  from assms obtain kvs where e: "e = JObj kvs"
    by (cases e) (auto simp: wf_event_def)
  with assms obtain cs where c: "(case map_of kvs (py_str ''content'') of None \<Rightarrow> JObj [] | Some w \<Rightarrow> w) = JObj cs"
    by (cases "case map_of kvs (py_str ''content'') of None \<Rightarrow> JObj [] | Some w \<Rightarrow> w") (auto simp: wf_event_def)
  show ?thesis
    by (simp add: state_step_def e c)
qed

subsection \<open>The whole fold\<close>

lemma fold_state_snoc:
  "fold_state a (xs @ [e]) = bind (fold_state a xs) (\<lambda>a'. state_step a' e)"
proof (induction xs arbitrary: a)
  case Nil
  show ?case by (cases "state_step a e") simp_all
next
  case (Cons x xs)
  show ?case by (cases "state_step a x") (simp_all add: Cons)
qed

lemma last_carrying_snoc:
  "last_carrying ty key (xs @ [e]) =
     (if event_type_is ty e \<and> carried key e \<noteq> None then Some e else last_carrying ty key xs)"
  by (auto simp: last_carrying_def)

lemma fold_written:
  assumes step: "\<And>a e a'. state_step a e = Inr a' \<Longrightarrow> f a' = written ty key (f a) e"
    and "fold_state a0 evs = Inr a"
  shows "f a = (case last_carrying ty key evs of None \<Rightarrow> f a0 | Some e \<Rightarrow> the (carried key e))"
  using assms(2)
proof (induction evs arbitrary: a rule: rev_induct)
  case Nil
  then show ?case by (simp add: last_carrying_def)
next
  case (snoc e xs)
  from snoc.prems obtain a1 where a1: "fold_state a0 xs = Inr a1" and st: "state_step a1 e = Inr a"
    by (auto simp: fold_state_snoc bind_eq_Inr)
  have "f a = written ty key (f a1) e"
    by (rule step [OF st])
  with snoc.IH [OF a1] show ?case
    by (cases "carried key e") (simp_all add: last_carrying_snoc written_def)
qed

lemma fold_state_name:
  "fold_state a0 evs = Inr a \<Longrightarrow>
     room_name a = (case last_carrying ''m.room.name'' ''name'' evs of
                      None \<Rightarrow> room_name a0 | Some e \<Rightarrow> the (carried ''name'' e))"
  by (rule fold_written [where f = room_name]) (drule state_step_Inr, simp)

lemma fold_state_topic:
  "fold_state a0 evs = Inr a \<Longrightarrow>
     room_topic a = (case last_carrying ''m.room.topic'' ''topic'' evs of
                      None \<Rightarrow> room_topic a0 | Some e \<Rightarrow> the (carried ''topic'' e))"
  by (rule fold_written [where f = room_topic]) (drule state_step_Inr, simp)

lemma fold_state_alias:
  "fold_state a0 evs = Inr a \<Longrightarrow>
     room_alias a = (case last_carrying ''m.room.canonical_alias'' ''alias'' evs of
                      None \<Rightarrow> room_alias a0 | Some e \<Rightarrow> the (carried ''alias'' e))"
  by (rule fold_written [where f = room_alias]) (drule state_step_Inr, simp)

lemma fold_state_encrypted:
  "fold_state a0 evs = Inr a \<Longrightarrow>
     is_encrypted a = (is_encrypted a0 \<or> (\<exists>e \<in> set evs. event_type_is ''m.room.encryption'' e))"
proof (induction evs arbitrary: a0)
  case Nil
  then show ?case by simp
next
  case (Cons x xs)
  from Cons.prems obtain a1 where st: "state_step a0 x = Inr a1" and a1: "fold_state a1 xs = Inr a"
    by (auto simp: bind_eq_Inr)
  from state_step_Inr [OF st]
  have "is_encrypted a1 = (is_encrypted a0 \<or> event_type_is ''m.room.encryption'' x)"
    by simp
  with Cons.IH [OF a1] show ?case by auto
qed

lemma fold_state_member_count:
  "fold_state a0 evs = Inr a \<Longrightarrow>
     member_count a = member_count a0 + int (length (filter (event_type_is ''m.room.member'') evs))"
proof (induction evs arbitrary: a0)
  case Nil
  then show ?case by simp
next
  case (Cons x xs)
  from Cons.prems obtain a1 where st: "state_step a0 x = Inr a1" and a1: "fold_state a1 xs = Inr a"
    by (auto simp: bind_eq_Inr)
  from state_step_Inr [OF st]
  have "member_count a1 = member_count a0 + (if event_type_is ''m.room.member'' x then 1 else 0)"
    by simp
  with Cons.IH [OF a1] show ?case by simp
qed

lemma fold_state_total:
  "\<forall>e \<in> set evs. wf_event e \<Longrightarrow> \<exists>a. fold_state a0 evs = Inr a"
proof (induction evs arbitrary: a0)
  case Nil
  show ?case by simp
next
  case (Cons x xs)
  then obtain a1 where "state_step a0 x = Inr a1"
    using state_step_total [of x a0] by auto
  with Cons show ?case by simp
qed

subsection \<open>Name, topic and alias\<close>

lemma find_conj_Some:
  "find P xs = Some e \<Longrightarrow> Q e \<Longrightarrow> find (\<lambda>x. P x \<and> Q x) xs = Some e"
  by (induction xs) (auto split: if_splits)

lemma find_conj_None:
  "find P xs = None \<Longrightarrow> find (\<lambda>x. P x \<and> Q x) xs = None"
  by (induction xs) (auto split: if_splits)

lemma event_type_unique:
  "event_type_is s e \<Longrightarrow> event_type_is t e \<Longrightarrow> s = t"
  by (simp add: event_type_is_def py_str_eq_iff)

lemma example_fold: "fold_state initial_state example_state_events = Inr example_state"
  by (simp add: example_state_events_def example_event_def example_state_def initial_state_def
      state_step_def py_str_eq_iff)

lemma cleared_fold:
  "fold_state initial_state cleared_name_events = Inr (initial_state\<lparr>room_name := JStr (py_str ''Ops'')\<rparr>)"
  by (simp add: cleared_name_events_def example_event_def state_step_def py_str_eq_iff)

lemma event_type_is_example: "event_type_is t (example_event ty c) \<longleftrightarrow> t = ty"
  by (auto simp: event_type_is_def example_event_def py_str_eq_iff)

lemma carried_example:
  "carried k (example_event ty c) = map_option (\<lambda>v. JStr (py_str v)) (map_of c k)"
  by (induction c) (auto simp: carried_def example_event_def py_str_eq_iff)

text \<open>
  Claim C1, as it is stated, fails.  The claim: for every state-event sequence the name, topic
  and alias of the room summary equal the value carried by the last event of the respective
  type, whatever the earlier events were, and the default when there is no such event.
  \<open>spec_last_write_wins\<close> says this for one field.  On the sequence of a naming event
  that carries \<open>Ops\<close> followed by a naming event with an empty content, the fold keeps
  \<open>Ops\<close>, which the last naming event does not carry.
\<close>

theorem last_write_wins_counterexample:
  "fold_state initial_state cleared_name_events = Inr (initial_state\<lparr>room_name := JStr (py_str ''Ops'')\<rparr>)
   \<and> \<not> spec_last_write_wins ''m.room.name'' ''name'' default_name cleared_name_events
         (info_name (make_room_info (py_str ''!r:example.org'')
            (initial_state\<lparr>room_name := JStr (py_str ''Ops'')\<rparr>) (JStr default_last_message) []))"
proof
  show "fold_state initial_state cleared_name_events = Inr (initial_state\<lparr>room_name := JStr (py_str ''Ops'')\<rparr>)"
    by (rule cleared_fold)
  show "\<not> spec_last_write_wins ''m.room.name'' ''name'' default_name cleared_name_events
         (info_name (make_room_info (py_str ''!r:example.org'')
            (initial_state\<lparr>room_name := JStr (py_str ''Ops'')\<rparr>) (JStr default_last_message) []))"
    by (simp add: spec_last_write_wins_def cleared_name_events_def
        event_type_is_example carried_example make_room_info_def)
qed

text \<open>
  Claim C1, amended.  For every state-event sequence on which the fold raises nothing: when
  the last event of type \<open>m.room.name\<close> carries the key \<open>name\<close>, the name of the room
  summary is the value it carries, whatever the earlier events were; when the sequence has no
  event of that type, the name is the default.  The same holds for \<open>m.room.topic\<close> with
  \<open>topic\<close> and for \<open>m.room.canonical_alias\<close> with \<open>alias\<close>.
\<close>

theorem last_write_wins_when_carried:
  assumes "fold_state initial_state evs = Inr a"
  shows "(case find (event_type_is ''m.room.name'') (rev evs) of
            None \<Rightarrow> info_name (make_room_info rid a lm ms) = JStr default_name
          | Some e \<Rightarrow> \<forall>v. carried ''name'' e = Some v \<longrightarrow> info_name (make_room_info rid a lm ms) = v)
       \<and> (case find (event_type_is ''m.room.topic'') (rev evs) of
            None \<Rightarrow> info_topic (make_room_info rid a lm ms) = JStr default_topic
          | Some e \<Rightarrow> \<forall>v. carried ''topic'' e = Some v \<longrightarrow> info_topic (make_room_info rid a lm ms) = v)
       \<and> (case find (event_type_is ''m.room.canonical_alias'') (rev evs) of
            None \<Rightarrow> info_canonical_alias (make_room_info rid a lm ms) = JStr default_alias
          | Some e \<Rightarrow> \<forall>v. carried ''alias'' e = Some v \<longrightarrow>
                        info_canonical_alias (make_room_info rid a lm ms) = v)"
proof -
  have gen: "(case find (event_type_is ty) (rev evs) of
                None \<Rightarrow> x = d
              | Some e \<Rightarrow> \<forall>v. carried key e = Some v \<longrightarrow> x = v)"
    if "x = (case last_carrying ty key evs of None \<Rightarrow> d | Some e \<Rightarrow> the (carried key e))"
    for ty key x d
  proof (cases "find (event_type_is ty) (rev evs)")
    case None
    then have "last_carrying ty key evs = None"
      unfolding last_carrying_def by (rule find_conj_None)
    with None that show ?thesis by simp
  next
    case (Some e)
    have "x = v" if v: "carried key e = Some v" for v
    proof -
      from v have "carried key e \<noteq> None" by simp
      with Some have "last_carrying ty key evs = Some e"
        unfolding last_carrying_def by (rule find_conj_Some)
      with \<open>x = _\<close> v show ?thesis by simp
    qed
    with Some show ?thesis by simp
  qed
  have info: "info_name (make_room_info rid a lm ms) = room_name a"
    "info_topic (make_room_info rid a lm ms) = room_topic a"
    "info_canonical_alias (make_room_info rid a lm ms) = room_alias a"
    by (simp_all add: make_room_info_def)
  have n: "room_name a = (case last_carrying ''m.room.name'' ''name'' evs of
             None \<Rightarrow> JStr default_name | Some e \<Rightarrow> the (carried ''name'' e))"
    using fold_state_name [OF assms] by (simp add: initial_state_def cong: option.case_cong)
  have t: "room_topic a = (case last_carrying ''m.room.topic'' ''topic'' evs of
             None \<Rightarrow> JStr default_topic | Some e \<Rightarrow> the (carried ''topic'' e))"
    using fold_state_topic [OF assms] by (simp add: initial_state_def cong: option.case_cong)
  have c: "room_alias a = (case last_carrying ''m.room.canonical_alias'' ''alias'' evs of
             None \<Rightarrow> JStr default_alias | Some e \<Rightarrow> the (carried ''alias'' e))"
    using fold_state_alias [OF assms] by (simp add: initial_state_def cong: option.case_cong)
  show ?thesis
    unfolding info by (intro conjI gen [OF n] gen [OF t] gen [OF c])
qed

lemma example_last_events:
  "find (event_type_is ''m.room.name'') (rev example_state_events)
     = Some (example_event ''m.room.name'' [(''name'', ''Ops-2'')])"
  "find (event_type_is ''m.room.topic'') (rev example_state_events)
     = Some (example_event ''m.room.topic'' [(''topic'', ''Infra'')])"
  "find (event_type_is ''m.room.canonical_alias'') (rev example_state_events)
     = Some (example_event ''m.room.canonical_alias'' [(''alias'', ''#ops:example.org'')])"
  by (simp_all add: example_state_events_def event_type_is_example)

lemma example_has_encryption:
  "\<exists>e \<in> set example_state_events. event_type_is ''m.room.encryption'' e"
  by (simp add: example_state_events_def event_type_is_example)

lemma cleared_has_no_encryption:
  "\<not> (\<exists>e \<in> set cleared_name_events. event_type_is ''m.room.encryption'' e)"
  by (simp add: cleared_name_events_def event_type_is_example)

lemma cleared_last_carrying:
  "last_carrying ''m.room.name'' ''name'' cleared_name_events
     = Some (example_event ''m.room.name'' [(''name'', ''Ops'')])"
  by (simp add: cleared_name_events_def last_carrying_def event_type_is_example carried_example)

lemma keyless_example_step:
  "state_step example_state (example_event ''m.room.name'' []) = Inr example_state"
  by (simp add: state_step_def example_event_def py_str_eq_iff)

text \<open>
  Claim C1, amended, on a sequence of seven events with two naming events: the second name
  wins.
\<close>

theorem last_write_wins_when_carried_witness:
  "fold_state initial_state example_state_events = Inr example_state
   \<and> info_name (make_room_info (py_str ''!r:example.org'') example_state (JStr default_last_message) [])
       = JStr (py_str ''Ops-2'')
   \<and> info_topic (make_room_info (py_str ''!r:example.org'') example_state (JStr default_last_message) [])
       = JStr (py_str ''Infra'')
   \<and> info_canonical_alias (make_room_info (py_str ''!r:example.org'') example_state (JStr default_last_message) [])
       = JStr (py_str ''#ops:example.org'')"
  using last_write_wins_when_carried [OF example_fold, of "py_str ''!r:example.org''" "JStr default_last_message" "[]"]
  by (simp add: example_fold example_last_events carried_example)

subsection \<open>The encryption flag\<close>

text \<open>
  Claim C2.  For every state-event sequence on which the fold raises nothing, the encrypted
  flag of the room summary is true exactly when some event of the sequence has the type
  \<open>m.room.encryption\<close>; and once the flag of the accumulator is true, no sequence of later
  events of any type makes it false.
\<close>

theorem encrypted_iff_encryption_event:
  assumes "fold_state initial_state evs = Inr a"
  shows "(info_is_encrypted (make_room_info rid a lm ms)
            \<longleftrightarrow> (\<exists>e \<in> set evs. event_type_is ''m.room.encryption'' e))
       \<and> (\<forall>later a'. is_encrypted a \<longrightarrow> fold_state a later = Inr a' \<longrightarrow> is_encrypted a')"
proof
  have "is_encrypted a = (\<exists>e \<in> set evs. event_type_is ''m.room.encryption'' e)"
    using fold_state_encrypted [OF assms] by (simp add: initial_state_def)
  then show "info_is_encrypted (make_room_info rid a lm ms)
            \<longleftrightarrow> (\<exists>e \<in> set evs. event_type_is ''m.room.encryption'' e)"
    by (simp add: make_room_info_def)
  show "\<forall>later a'. is_encrypted a \<longrightarrow> fold_state a later = Inr a' \<longrightarrow> is_encrypted a'"
  proof (intro allI impI)
    fix later a'
    assume "is_encrypted a" and "fold_state a later = Inr a'"
    then show "is_encrypted a'"
      using fold_state_encrypted [of a later a'] by simp
  qed
qed

text \<open>
  Claim C2 on a sequence with an encryption event and on one without.
\<close>

theorem encrypted_iff_encryption_event_witness:
  "fold_state initial_state example_state_events = Inr example_state
   \<and> info_is_encrypted (make_room_info (py_str ''!r:example.org'') example_state (JStr default_last_message) [])
   \<and> (\<exists>e \<in> set example_state_events. event_type_is ''m.room.encryption'' e)
   \<and> fold_state initial_state cleared_name_events = Inr (initial_state\<lparr>room_name := JStr (py_str ''Ops'')\<rparr>)
   \<and> \<not> info_is_encrypted (make_room_info (py_str ''!r:example.org'')
           (initial_state\<lparr>room_name := JStr (py_str ''Ops'')\<rparr>) (JStr default_last_message) [])
   \<and> \<not> (\<exists>e \<in> set cleared_name_events. event_type_is ''m.room.encryption'' e)"
  using encrypted_iff_encryption_event [OF example_fold, THEN conjunct1,
      of "py_str ''!r:example.org''" "JStr default_last_message" "[]"]
    encrypted_iff_encryption_event [OF cleared_fold, THEN conjunct1,
      of "py_str ''!r:example.org''" "JStr default_last_message" "[]"]
  by (simp add: example_fold cleared_fold example_has_encryption cleared_has_no_encryption)

subsection \<open>Events without their key\<close>

lemma keyless_step:
  assumes st: "state_step a e = Inr a'" and ty: "event_type_is ty e"
    and key: "carried key e = None"
    and tk: "(ty, key) \<in> {(''m.room.name'', ''name''), (''m.room.topic'', ''topic''),
                          (''m.room.canonical_alias'', ''alias'')}"
  shows "a' = a"
proof -
  have other: "\<not> event_type_is t e" if "t \<noteq> ty" for t
    using event_type_unique [OF ty] that by blast
  from tk have tk': "ty = ''m.room.name'' \<and> key = ''name''
      \<or> ty = ''m.room.topic'' \<and> key = ''topic''
      \<or> ty = ''m.room.canonical_alias'' \<and> key = ''alias''"
    by simp
  have enc: "\<not> event_type_is ''m.room.encryption'' e"
    using tk' by (intro other) auto
  have mem: "\<not> event_type_is ''m.room.member'' e"
    using tk' by (intro other) auto
  have nm: "written ''m.room.name'' ''name'' (room_name a) e = room_name a"
  proof (cases "ty = ''m.room.name''")
    case True
    with tk' have "key = ''name''" by simp
    with key show ?thesis by (simp add: written_def)
  next
    case False
    then show ?thesis by (simp add: written_def other)
  qed
  have tp: "written ''m.room.topic'' ''topic'' (room_topic a) e = room_topic a"
  proof (cases "ty = ''m.room.topic''")
    case True
    with tk' have "key = ''topic''" by simp
    with key show ?thesis by (simp add: written_def)
  next
    case False
    then show ?thesis by (simp add: written_def other)
  qed
  have al: "written ''m.room.canonical_alias'' ''alias'' (room_alias a) e = room_alias a"
  proof (cases "ty = ''m.room.canonical_alias''")
    case True
    with tk' have "key = ''alias''" by simp
    with key show ?thesis by (simp add: written_def)
  next
    case False
    then show ?thesis by (simp add: written_def other)
  qed
  from state_step_Inr [OF st] show ?thesis
    by (simp add: enc mem nm tp al)
qed

text \<open>
  Claim C9.  For every state-event sequence on which the fold raises nothing, the name, the
  topic and the alias of the room summary are the values of the last event of the respective
  type that carries the respective key, and the default when no event does; and one step of
  the fold on a naming, topic or alias event whose content lacks the key returns the
  accumulator unchanged.
\<close>

theorem keyless_event_keeps_field:
  assumes "fold_state initial_state evs = Inr a"
  shows "info_name (make_room_info rid a lm ms) =
           (case last_carrying ''m.room.name'' ''name'' evs of
              None \<Rightarrow> JStr default_name | Some e \<Rightarrow> the (carried ''name'' e))
       \<and> info_topic (make_room_info rid a lm ms) =
           (case last_carrying ''m.room.topic'' ''topic'' evs of
              None \<Rightarrow> JStr default_topic | Some e \<Rightarrow> the (carried ''topic'' e))
       \<and> info_canonical_alias (make_room_info rid a lm ms) =
           (case last_carrying ''m.room.canonical_alias'' ''alias'' evs of
              None \<Rightarrow> JStr default_alias | Some e \<Rightarrow> the (carried ''alias'' e))
       \<and> (\<forall>a0 e a1 ty key.
            (ty, key) \<in> {(''m.room.name'', ''name''), (''m.room.topic'', ''topic''),
                         (''m.room.canonical_alias'', ''alias'')} \<longrightarrow>
            event_type_is ty e \<longrightarrow> carried key e = None \<longrightarrow> state_step a0 e = Inr a1 \<longrightarrow> a1 = a0)"
proof (intro conjI)
  show "info_name (make_room_info rid a lm ms) =
           (case last_carrying ''m.room.name'' ''name'' evs of
              None \<Rightarrow> JStr default_name | Some e \<Rightarrow> the (carried ''name'' e))"
    using fold_state_name [OF assms]
    by (simp add: initial_state_def make_room_info_def cong: option.case_cong)
  show "info_topic (make_room_info rid a lm ms) =
           (case last_carrying ''m.room.topic'' ''topic'' evs of
              None \<Rightarrow> JStr default_topic | Some e \<Rightarrow> the (carried ''topic'' e))"
    using fold_state_topic [OF assms]
    by (simp add: initial_state_def make_room_info_def cong: option.case_cong)
  show "info_canonical_alias (make_room_info rid a lm ms) =
           (case last_carrying ''m.room.canonical_alias'' ''alias'' evs of
              None \<Rightarrow> JStr default_alias | Some e \<Rightarrow> the (carried ''alias'' e))"
    using fold_state_alias [OF assms]
    by (simp add: initial_state_def make_room_info_def cong: option.case_cong)
  show "\<forall>a0 e a1 ty key.
            (ty, key) \<in> {(''m.room.name'', ''name''), (''m.room.topic'', ''topic''),
                         (''m.room.canonical_alias'', ''alias'')} \<longrightarrow>
            event_type_is ty e \<longrightarrow> carried key e = None \<longrightarrow> state_step a0 e = Inr a1 \<longrightarrow> a1 = a0"
  proof (intro allI impI)
    fix a0 e a1 ty key
    assume "(ty, key) \<in> {(''m.room.name'', ''name''), (''m.room.topic'', ''topic''),
                         (''m.room.canonical_alias'', ''alias'')}"
      and ty: "event_type_is ty e" and key: "carried key e = None"
      and st: "state_step a0 e = Inr a1"
    then show "a1 = a0"
      by (intro keyless_step [OF st ty key])
  qed
qed

text \<open>
  Claim C9 on a naming event that carries \<open>Ops\<close> followed by a naming event with an
  empty content.
\<close>

theorem keyless_event_keeps_field_witness:
  "fold_state initial_state cleared_name_events = Inr (initial_state\<lparr>room_name := JStr (py_str ''Ops'')\<rparr>)
   \<and> carried ''name'' (example_event ''m.room.name'' []) = None
   \<and> last_carrying ''m.room.name'' ''name'' cleared_name_events
        = Some (example_event ''m.room.name'' [(''name'', ''Ops'')])
   \<and> info_name (make_room_info (py_str ''!r:example.org'')
        (initial_state\<lparr>room_name := JStr (py_str ''Ops'')\<rparr>) (JStr default_last_message) [])
        = JStr (py_str ''Ops'')
   \<and> state_step example_state (example_event ''m.room.name'' []) = Inr example_state"
  using keyless_event_keeps_field [OF cleared_fold, of "py_str ''!r:example.org''" "JStr default_last_message" "[]"]
  by (simp add: cleared_fold cleared_last_carrying carried_example keyless_example_step)

subsection \<open>The reverse scan\<close>

lemma scan_message_with_body:
  assumes "event_type_is ''m.room.message'' e" and "carried ''body'' e = Some b"
  shows "scan_timeline (e # older) = truncate_body b"
proof -
  from assms(1) obtain kvs where e: "e = JObj kvs"
    by (cases e) (simp_all add: event_type_is_def)
  from assms(1) have t: "(case map_of kvs (py_str ''type'') of None \<Rightarrow> JNull | Some v \<Rightarrow> v)
      = JStr (py_str ''m.room.message'')"
    by (simp add: e event_type_is_obj)
  from assms(2) obtain cs where c: "(case map_of kvs (py_str ''content'') of None \<Rightarrow> JObj [] | Some v \<Rightarrow> v)
      = JObj cs" and b: "map_of cs (py_str ''body'') = Some b"
    by (cases "case map_of kvs (py_str ''content'') of None \<Rightarrow> JObj [] | Some v \<Rightarrow> v")
       (simp_all add: e carried_obj)
  show ?thesis
    by (simp add: e t c b)
qed

lemma scan_other_type:
  assumes "\<not> event_type_is ''m.room.message'' (JObj kvs)"
  shows "scan_timeline (JObj kvs # older) = scan_timeline older"
  using assms by (simp add: event_type_is_obj)

lemma scan_step_Inr:
  assumes ok: "scan_timeline (e # older) = Inr lm"
  shows "if event_type_is ''m.room.message'' e \<and> carried ''body'' e \<noteq> None
         then truncate_body (the (carried ''body'' e)) = Inr lm
         else scan_timeline older = Inr lm"
proof -
  from ok obtain kvs where e: "e = JObj kvs"
    by (cases e) simp_all
  show ?thesis
  proof (cases "event_type_is ''m.room.message'' e")
    case False
    with ok show ?thesis
      by (simp add: e scan_other_type del: scan_timeline.simps)
  next
    case True
    show ?thesis
    proof (cases "carried ''body'' e")
      case (Some b)
      with ok True show ?thesis
        by (simp add: scan_message_with_body del: scan_timeline.simps)
    next
      case None
      define c where "c = (case map_of kvs (py_str ''content'') of None \<Rightarrow> JObj [] | Some v \<Rightarrow> v)"
      from True have t: "(case map_of kvs (py_str ''type'') of None \<Rightarrow> JNull | Some v \<Rightarrow> v)
          = JStr (py_str ''m.room.message'')"
        by (simp add: e event_type_is_obj)
      have step: "scan_timeline (e # older) =
          bind (py_contains (py_str ''body'') c) (\<lambda>has_body.
            if has_body then bind (py_getitem c (py_str ''body'')) truncate_body
            else scan_timeline older)"
        unfolding c_def by (simp add: e t)
      have "scan_timeline older = Inr lm"
      proof (cases c)
        case (JObj cs)
        with None have "map_of cs (py_str ''body'') = None"
          by (simp add: e carried_obj c_def)
        with ok step JObj show ?thesis by simp
      next
        case (JArr xs)
        with ok step show ?thesis by (simp split: if_splits)
      next
        case (JStr s)
        with ok step show ?thesis by (simp split: if_splits)
      next
        case JNull
        with ok step show ?thesis by simp
      next
        case (JBool x)
        with ok step show ?thesis by simp
      next
        case (JInt x)
        with ok step show ?thesis by simp
      qed
      with None show ?thesis by simp
    qed
  qed
qed

lemma scan_timeline_found:
  assumes "scan_timeline xs = Inr lm"
  shows "case find (\<lambda>e. event_type_is ''m.room.message'' e \<and> carried ''body'' e \<noteq> None) xs of
           None \<Rightarrow> lm = JStr default_last_message
         | Some e \<Rightarrow> truncate_body (the (carried ''body'' e)) = Inr lm"
  using assms
proof (induction xs)
  case Nil
  then show ?case by simp
next
  case (Cons e older)
  from scan_step_Inr [OF Cons.prems] Cons.IH show ?case
    by (simp del: scan_timeline.simps split: if_splits)
qed

lemma truncate_body_str:
  "truncate_body (JStr b) = Inr (JStr (if length b \<le> 100 then b else take 100 b @ py_str ''...''))"
  by (simp add: truncate_body_def)

lemma scan_timeline_total:
  assumes "\<forall>e \<in> set xs. wf_event e \<and> (\<forall>b. carried ''body'' e = Some b \<longrightarrow> (\<exists>s. b = JStr s))"
  shows "\<exists>lm. scan_timeline xs = Inr lm"
  using assms
proof (induction xs)
  case Nil
  show ?case by simp
next
  case (Cons e older)
  then obtain lm where older: "scan_timeline older = Inr lm"
    by auto
  from Cons.prems have wf: "wf_event e"
    and str: "\<And>b. carried ''body'' e = Some b \<Longrightarrow> \<exists>s. b = JStr s"
    by auto
  from wf obtain kvs where e: "e = JObj kvs"
    by (cases e) (auto simp: wf_event_def)
  with wf obtain cs where c: "(case map_of kvs (py_str ''content'') of None \<Rightarrow> JObj [] | Some w \<Rightarrow> w) = JObj cs"
    by (cases "case map_of kvs (py_str ''content'') of None \<Rightarrow> JObj [] | Some w \<Rightarrow> w")
       (auto simp: wf_event_def)
  show ?case
  proof (cases "event_type_is ''m.room.message'' e")
    case False
    with older show ?thesis
      by (simp add: e scan_other_type del: scan_timeline.simps)
  next
    case True
    show ?thesis
    proof (cases "carried ''body'' e")
      case (Some b)
      with str obtain s where "b = JStr s" by blast
      with True Some show ?thesis
        by (simp add: scan_message_with_body truncate_body_str del: scan_timeline.simps)
    next
      case None
      then have "map_of cs (py_str ''body'') = None"
        by (simp add: e carried_obj c)
      moreover from True have "(case map_of kvs (py_str ''type'') of None \<Rightarrow> JNull | Some v \<Rightarrow> v)
          = JStr (py_str ''m.room.message'')"
        by (simp add: e event_type_is_obj)
      ultimately show ?thesis
        using older by (simp add: e c)
    qed
  qed
qed

lemma event_type_is_message [simp]:
  "event_type_is t (example_message b) \<longleftrightarrow> t = ''m.room.message''"
  "event_type_is t redacted_message \<longleftrightarrow> t = ''m.room.message''"
  by (auto simp: event_type_is_def example_message_def redacted_message_def py_str_eq_iff)

lemma carried_body_message [simp]:
  "carried ''body'' (example_message b) = Some (JStr b)"
  "carried ''body'' redacted_message = None"
  by (simp_all add: carried_def example_message_def redacted_message_def py_str_eq_iff)

lemma last_message_of_read:
  assumes "dict_get room_data (py_str ''timeline'') (JObj []) = Inr timeline_obj"
    and "dict_get timeline_obj (py_str ''events'') (JArr []) = Inr timeline_events"
    and "py_iter timeline_events = Inr timeline"
  shows "last_message_of room_data = scan_timeline (rev timeline)"
  by (simp add: last_message_of_def timeline_events_of_def py_reversed_def assms)

lemma last_message_of_room_with_timeline:
  "last_message_of (room_with_timeline timeline) = scan_timeline (rev timeline)"
  by (rule last_message_of_read [where timeline_obj = "JObj [(py_str ''events'', JArr timeline)]"
        and timeline_events = "JArr timeline"])
     (simp_all add: room_with_timeline_def py_str_eq_iff)

lemma room_with_timeline_read:
  "dict_get (room_with_timeline timeline) (py_str ''timeline'') (JObj [])
     = Inr (JObj [(py_str ''events'', JArr timeline)])"
  "dict_get (JObj [(py_str ''events'', JArr timeline)]) (py_str ''events'') (JArr [])
     = Inr (JArr timeline)"
  "py_iter (JArr timeline) = Inr timeline"
  by (simp_all add: room_with_timeline_def)

lemma redacted_scan:
  "scan_timeline (rev redacted_timeline) = Inr (JStr (py_str ''hi''))"
proof -
  have "scan_timeline (rev redacted_timeline)
      = scan_timeline [redacted_message, example_message (py_str ''hi'')]"
    by (simp add: redacted_timeline_def)
  also have "\<dots> = scan_timeline [example_message (py_str ''hi'')]"
    by (simp add: redacted_message_def py_str_eq_iff)
  also have "\<dots> = truncate_body (JStr (py_str ''hi''))"
    by (rule scan_message_with_body) simp_all
  also have "\<dots> = Inr (JStr (py_str ''hi''))"
    by (simp add: truncate_body_str py_str_def)
  finally show ?thesis .
qed

lemma example_scan:
  "scan_timeline (rev example_timeline) = Inr (JStr (replicate 100 120 @ py_str ''...''))"
proof -
  have "scan_timeline (rev example_timeline)
      = scan_timeline [example_message long_body, example_message (py_str ''hi'')]"
    by (simp add: example_timeline_def)
  also have "\<dots> = truncate_body (JStr long_body)"
    by (rule scan_message_with_body) simp_all
  also have "\<dots> = Inr (JStr (replicate 100 120 @ py_str ''...''))"
    by (simp add: truncate_body_str long_body_def)
  finally show ?thesis .
qed

lemma redacted_last_message:
  "last_message_of (room_with_timeline redacted_timeline) = Inr (JStr (py_str ''hi''))"
  by (simp add: last_message_of_room_with_timeline redacted_scan)

lemma example_last_message:
  "last_message_of (room_with_timeline example_timeline)
     = Inr (JStr (replicate 100 120 @ py_str ''...''))"
  by (simp add: last_message_of_room_with_timeline example_scan)

subsection \<open>The last message\<close>

text \<open>
  Claim C3, as it is stated, fails.  The claim: \<open>last_message\<close> is the (possibly truncated)
  body of the message event closest to the end of the timeline, and the default when the
  timeline has no message event.  \<open>spec_last_message\<close> says this.  On the timeline of a
  message \<open>hi\<close> followed by a message event with an empty content, the last message of
  the room is \<open>hi\<close>, which is not the body of the message event closest to the end.
\<close>

theorem last_message_counterexample:
  "last_message_of (room_with_timeline redacted_timeline) = Inr (JStr (py_str ''hi''))
   \<and> \<not> spec_last_message redacted_timeline
         (info_last_message (make_room_info (py_str ''!r:example.org'') initial_state
            (JStr (py_str ''hi'')) []))"
proof
  show "last_message_of (room_with_timeline redacted_timeline) = Inr (JStr (py_str ''hi''))"
    by (rule redacted_last_message)
  show "\<not> spec_last_message redacted_timeline
         (info_last_message (make_room_info (py_str ''!r:example.org'') initial_state
            (JStr (py_str ''hi'')) []))"
    by (simp add: spec_last_message_def redacted_timeline_def)
qed

text \<open>
  Claim C3, amended.  Let \<open>timeline\<close> be the sequence that the room data hold under
  \<open>timeline\<close> and \<open>events\<close>, in the order of the server (oldest first), and let the code
  compute the last message of the room without an exception.  When the message event
  closest to the end of \<open>timeline\<close> carries the key \<open>body\<close>, \<open>last_message\<close> is that
  body as \<open>truncate_body\<close> returns it; when the timeline has no message event,
  \<open>last_message\<close> is the default.
\<close>

theorem last_message_when_body_carried:
  assumes "dict_get room_data (py_str ''timeline'') (JObj []) = Inr timeline_obj"
    and "dict_get timeline_obj (py_str ''events'') (JArr []) = Inr timeline_events"
    and "py_iter timeline_events = Inr timeline"
    and "last_message_of room_data = Inr lm"
  shows "case find (event_type_is ''m.room.message'') (rev timeline) of
           None \<Rightarrow> info_last_message (make_room_info rid a lm ms) = JStr default_last_message
         | Some e \<Rightarrow> \<forall>b. carried ''body'' e = Some b \<longrightarrow>
                        truncate_body b = Inr (info_last_message (make_room_info rid a lm ms))"
proof -
  have scan: "scan_timeline (rev timeline) = Inr lm"
    using assms(4) by (simp add: last_message_of_read [OF assms(1-3)])
  note found = scan_timeline_found [OF scan]
  show ?thesis
  proof (cases "find (event_type_is ''m.room.message'') (rev timeline)")
    case None
    then have "find (\<lambda>e. event_type_is ''m.room.message'' e \<and> carried ''body'' e \<noteq> None)
        (rev timeline) = None"
      by (rule find_conj_None)
    with found None show ?thesis by (simp add: make_room_info_def)
  next
    case (Some e)
    have "truncate_body b = Inr lm" if b: "carried ''body'' e = Some b" for b
    proof -
      from b have "carried ''body'' e \<noteq> None" by simp
      with Some have "find (\<lambda>e. event_type_is ''m.room.message'' e \<and> carried ''body'' e \<noteq> None)
          (rev timeline) = Some e"
        by (rule find_conj_Some)
      with found b show ?thesis by simp
    qed
    with Some show ?thesis by (simp add: make_room_info_def)
  qed
qed

lemma example_last_message_event:
  "find (event_type_is ''m.room.message'') (rev example_timeline) = Some (example_message long_body)"
  by (simp add: example_timeline_def)

text \<open>
  Claim C3, amended, on a timeline of two messages, the later one of 101 characters.
\<close>

theorem last_message_when_body_carried_witness:
  "dict_get (room_with_timeline example_timeline) (py_str ''timeline'') (JObj [])
     = Inr (JObj [(py_str ''events'', JArr example_timeline)])
   \<and> dict_get (JObj [(py_str ''events'', JArr example_timeline)]) (py_str ''events'') (JArr [])
     = Inr (JArr example_timeline)
   \<and> py_iter (JArr example_timeline) = Inr example_timeline
   \<and> last_message_of (room_with_timeline example_timeline)
       = Inr (JStr (replicate 100 120 @ py_str ''...''))
   \<and> truncate_body (JStr long_body)
       = Inr (info_last_message (make_room_info (py_str ''!r:example.org'') example_state
               (JStr (replicate 100 120 @ py_str ''...'')) []))"
  using last_message_when_body_carried [OF room_with_timeline_read example_last_message,
      of "py_str ''!r:example.org''" example_state "[]"]
  by (simp add: room_with_timeline_read example_last_message example_last_message_event
      del: dict_get.simps py_iter.simps)

subsection \<open>Truncation\<close>

text \<open>
  Claim C4.  When the most recent event of the timeline is a message whose body is the
  string \<open>b\<close>, the scan returns \<open>b\<close> itself if \<open>b\<close> has at most 100 characters, and
  the first 100 characters of \<open>b\<close> followed by three dots otherwise.
\<close>

theorem truncation_at_100:
  assumes "event_type_is ''m.room.message'' e" and "carried ''body'' e = Some (JStr b)"
  shows "scan_timeline (rev (earlier @ [e]))
           = Inr (JStr (if length b \<le> 100 then b else take 100 b @ py_str ''...''))"
  using scan_message_with_body [OF assms] by (simp add: truncate_body_str del: scan_timeline.simps)

text \<open>
  Claim C4 on a body of 101 characters and on a body of 100 characters.
\<close>

theorem truncation_at_100_witness:
  "event_type_is ''m.room.message'' (example_message long_body)
   \<and> carried ''body'' (example_message long_body) = Some (JStr long_body)
   \<and> length long_body = 101
   \<and> scan_timeline (rev ([example_message (py_str ''hi'')] @ [example_message long_body]))
       = Inr (JStr (replicate 100 120 @ py_str ''...''))
   \<and> length (replicate 100 (120::nat)) = 100
   \<and> scan_timeline (rev ([] @ [example_message (replicate 100 120)]))
       = Inr (JStr (replicate 100 120))"
  using truncation_at_100 [of "example_message long_body" long_body "[example_message (py_str ''hi'')]"]
    truncation_at_100 [of "example_message (replicate 100 120)" "replicate 100 120" "[]"]
  by (simp add: long_body_def del: scan_timeline.simps)

subsection \<open>Messages without a body\<close>

text \<open>
  Claim C10.  Let \<open>timeline\<close> be the sequence that the room data hold under
  \<open>timeline\<close> and \<open>events\<close>, in the order of the server (oldest first), and let the code
  compute the last message of the room without an exception.  Then \<open>last_message\<close> is the
  body, as \<open>truncate_body\<close> returns it, of the most recent message event that carries the
  key \<open>body\<close>, and the default when no message event carries it.  And a message event
  without a body at the end of a timeline is skipped: the last message of the room is the
  one of the room with the earlier events alone.
\<close>

theorem bodyless_message_skipped:
  assumes "dict_get room_data (py_str ''timeline'') (JObj []) = Inr timeline_obj"
    and "dict_get timeline_obj (py_str ''events'') (JArr []) = Inr timeline_events"
    and "py_iter timeline_events = Inr timeline"
    and "last_message_of room_data = Inr lm"
  shows "(case last_carrying ''m.room.message'' ''body'' timeline of
            None \<Rightarrow> info_last_message (make_room_info rid a lm ms) = JStr default_last_message
          | Some e \<Rightarrow> truncate_body (the (carried ''body'' e))
                       = Inr (info_last_message (make_room_info rid a lm ms)))
       \<and> (\<forall>e earlier r. event_type_is ''m.room.message'' e \<longrightarrow> carried ''body'' e = None \<longrightarrow>
            last_message_of (room_with_timeline (earlier @ [e])) = Inr r \<longrightarrow>
            last_message_of (room_with_timeline earlier) = Inr r)"
proof
  have info: "info_last_message (make_room_info rid a lm ms) = lm"
    by (simp add: make_room_info_def)
  have scan: "scan_timeline (rev timeline) = Inr lm"
    using assms(4) by (simp add: last_message_of_read [OF assms(1-3)])
  from scan_timeline_found [OF scan]
  show "case last_carrying ''m.room.message'' ''body'' timeline of
            None \<Rightarrow> info_last_message (make_room_info rid a lm ms) = JStr default_last_message
          | Some e \<Rightarrow> truncate_body (the (carried ''body'' e))
                       = Inr (info_last_message (make_room_info rid a lm ms))"
    unfolding info last_carrying_def .
  show "\<forall>e earlier r. event_type_is ''m.room.message'' e \<longrightarrow> carried ''body'' e = None \<longrightarrow>
            last_message_of (room_with_timeline (earlier @ [e])) = Inr r \<longrightarrow>
            last_message_of (room_with_timeline earlier) = Inr r"
  proof (intro allI impI)
    fix e earlier r
    assume "event_type_is ''m.room.message'' e" and none: "carried ''body'' e = None"
      and "last_message_of (room_with_timeline (earlier @ [e])) = Inr r"
    then have ok: "scan_timeline (e # rev earlier) = Inr r"
      by (simp add: last_message_of_room_with_timeline del: scan_timeline.simps)
    from scan_step_Inr [OF ok] none have "scan_timeline (rev earlier) = Inr r"
      by simp
    then show "last_message_of (room_with_timeline earlier) = Inr r"
      by (simp add: last_message_of_room_with_timeline)
  qed
qed

lemma redacted_last_carrying:
  "last_carrying ''m.room.message'' ''body'' redacted_timeline = Some (example_message (py_str ''hi''))"
  by (simp add: last_carrying_def redacted_timeline_def)

text \<open>
  Claim C10 on a message \<open>hi\<close> followed by a message event with an empty content.
\<close>

theorem bodyless_message_skipped_witness:
  "dict_get (room_with_timeline redacted_timeline) (py_str ''timeline'') (JObj [])
     = Inr (JObj [(py_str ''events'', JArr redacted_timeline)])
   \<and> dict_get (JObj [(py_str ''events'', JArr redacted_timeline)]) (py_str ''events'') (JArr [])
     = Inr (JArr redacted_timeline)
   \<and> py_iter (JArr redacted_timeline) = Inr redacted_timeline
   \<and> last_message_of (room_with_timeline redacted_timeline) = Inr (JStr (py_str ''hi''))
   \<and> carried ''body'' redacted_message = None
   \<and> last_carrying ''m.room.message'' ''body'' redacted_timeline = Some (example_message (py_str ''hi''))
   \<and> truncate_body (JStr (py_str ''hi''))
       = Inr (info_last_message (make_room_info (py_str ''!r:example.org'') example_state
               (JStr (py_str ''hi'')) []))"
  using bodyless_message_skipped [OF room_with_timeline_read redacted_last_message,
      THEN conjunct1, of "py_str ''!r:example.org''" example_state "[]"]
  by (simp add: room_with_timeline_read redacted_last_message redacted_last_carrying
      del: dict_get.simps py_iter.simps)

subsection \<open>Member count and preview\<close>

text \<open>
  Claim C5.  For every room whose state events the fold reads without an exception: when
  the resolved roster is not empty, \<open>member_count\<close> is its length, whatever the counter of
  membership events is, and \<open>members\<close> is its first 10 entries; when the roster is empty,
  \<open>member_count\<close> is the number of state events of type \<open>m.room.member\<close> and
  \<open>members\<close> is empty.
\<close>

theorem roster_precedence:
  assumes "fold_state initial_state evs = Inr a"
  shows "info_member_count (make_room_info rid a lm ms)
           = (if ms \<noteq> [] then int (length ms)
              else int (length (filter (event_type_is ''m.room.member'') evs)))
       \<and> info_members (make_room_info rid a lm ms) = (if ms \<noteq> [] then take 10 ms else [])"
  using fold_state_member_count [OF assms]
  by (simp add: make_room_info_def initial_state_def)

lemma example_member_events:
  "length (filter (event_type_is ''m.room.member'') example_state_events) = 2"
  by (simp add: example_state_events_def event_type_is_example)

lemma example_roster_facts:
  "example_roster \<noteq> []" "length example_roster = 12"
  "take 10 example_roster = map (\<lambda>i. JStr [117, 48 + i]) [0..<10]"
  by (simp_all add: example_roster_def)

text \<open>
  Claim C5 on a roster of twelve against two membership events, and on the empty roster.
\<close>

theorem roster_precedence_witness:
  "fold_state initial_state example_state_events = Inr example_state
   \<and> info_member_count (make_room_info (py_str ''!r:example.org'') example_state
        (JStr default_last_message) example_roster) = 12
   \<and> info_members (make_room_info (py_str ''!r:example.org'') example_state
        (JStr default_last_message) example_roster) = map (\<lambda>i. JStr [117, 48 + i]) [0..<10]
   \<and> info_member_count (make_room_info (py_str ''!r:example.org'') example_state
        (JStr default_last_message) []) = 2
   \<and> info_members (make_room_info (py_str ''!r:example.org'') example_state
        (JStr default_last_message) []) = []"
  using roster_precedence [OF example_fold, of "py_str ''!r:example.org''" "JStr default_last_message" example_roster]
    roster_precedence [OF example_fold, of "py_str ''!r:example.org''" "JStr default_last_message" "[]"]
  by (simp add: example_fold example_member_events example_roster_facts)

subsection \<open>The member resolver\<close>

lemma member_entry_wf:
  assumes "wf_event member"
  shows "member_entry member = Inr (resolved_entry member)"
proof -
  from assms obtain kvs where m: "member = JObj kvs"
    by (cases member) (auto simp: wf_event_def)
  with assms obtain cs where c: "(case map_of kvs (py_str ''content'') of None \<Rightarrow> JObj [] | Some w \<Rightarrow> w) = JObj cs"
    by (cases "case map_of kvs (py_str ''content'') of None \<Rightarrow> JObj [] | Some w \<Rightarrow> w")
       (auto simp: wf_event_def)
  show ?thesis
    by (simp add: member_entry_def resolved_entry_def state_key_of_def m c carried_obj
        split: option.split)
qed

lemma member_entries_wf:
  "\<forall>r \<in> set records. wf_event r \<Longrightarrow> member_entries records = Inr (map resolved_entry records)"
  by (induction records) (simp_all add: member_entry_wf)

lemma get_session_fields [simp]:
  "requests (get_session m) = requests m"
  "access_token (get_session m) = access_token m"
  "get_headers (get_session m) = get_headers m"
  by (simp_all add: get_session_def get_headers_def)

lemma get_room_members_eq:
  assumes "truthy (access_token m)"
  shows "fst (get_room_members srv m room_id) =
           (case srv (requests m) (members_request m room_id) of
              ClientError \<Rightarrow> []
            | Response status body \<Rightarrow>
                if status = 200 then
                  (case body of
                     None \<Rightarrow> []
                   | Some data \<Rightarrow> (case members_of_response data of Inl e \<Rightarrow> [] | Inr ms \<Rightarrow> ms))
                else [])"
  using assms
  by (simp add: get_room_members_def send_def members_request_def Let_def
      split: http_outcome.split option.split sum.split)

text \<open>
  Claim C6, as it is stated, fails.  The claim: each entry of the result is the display-name
  attribute of the record when present, and the raw account identifier otherwise;
  \<open>spec_member_entry\<close> says this.  For a record whose display name is present and is the
  empty string the resolver returns the account identifier.
\<close>

theorem member_entry_counterexample:
  "carried ''displayname'' (example_member [] ''@ann:example.org'') = Some (JStr [])
   \<and> member_entry (example_member [] ''@ann:example.org'') = Inr (JStr (py_str ''@ann:example.org''))
   \<and> member_entry (example_member [] ''@ann:example.org'')
       \<noteq> Inr (spec_member_entry (example_member [] ''@ann:example.org''))"
  by (simp add: example_member_def carried_def member_entry_def spec_member_entry_def
      state_key_of_def py_str_eq_iff py_str_def)

text \<open>
  Claim C6, amended.  Without a truthy token the resolver returns the empty sequence and
  sends nothing.  With one: when the request raises in the client library, or the status is
  not 200, the result is the empty sequence; when the status is 200 and \<open>chunk\<close> is a list
  of well-formed records, the result has one entry for each record, in the order of the
  server, each entry being the display name of the record when it is present and truthy and
  the \<open>state_key\<close> of the record otherwise (the empty string when that is missing too).
  The resolver is a total function into sequences: no branch of it raises.
\<close>

theorem members_resolved:
  "(\<not> truthy (access_token m) \<longrightarrow> get_room_members srv m room_id = ([], m))
   \<and> (truthy (access_token m) \<longrightarrow>
        srv (requests m) (members_request m room_id) = ClientError \<longrightarrow>
        fst (get_room_members srv m room_id) = [])
   \<and> (truthy (access_token m) \<longrightarrow>
        srv (requests m) (members_request m room_id) = Response status body \<longrightarrow>
        status \<noteq> 200 \<longrightarrow>
        fst (get_room_members srv m room_id) = [])
   \<and> (truthy (access_token m) \<longrightarrow>
        srv (requests m) (members_request m room_id) = Response 200 (Some data) \<longrightarrow>
        dict_get data (py_str ''chunk'') (JArr []) = Inr (JArr records) \<longrightarrow>
        (\<forall>r \<in> set records. wf_event r) \<longrightarrow>
        fst (get_room_members srv m room_id) = map resolved_entry records)"
proof (intro conjI impI)
  assume "\<not> truthy (access_token m)"
  then show "get_room_members srv m room_id = ([], m)"
    by (simp add: get_room_members_def)
next
  assume "truthy (access_token m)"
    and "srv (requests m) (members_request m room_id) = ClientError"
  then show "fst (get_room_members srv m room_id) = []"
    by (simp add: get_room_members_eq)
next
  assume "truthy (access_token m)"
    and "srv (requests m) (members_request m room_id) = Response status body"
    and "status \<noteq> 200"
  then show "fst (get_room_members srv m room_id) = []"
    by (simp add: get_room_members_eq)
next
  assume tok: "truthy (access_token m)"
    and out: "srv (requests m) (members_request m room_id) = Response 200 (Some data)"
    and chunk: "dict_get data (py_str ''chunk'') (JArr []) = Inr (JArr records)"
    and wf: "\<forall>r \<in> set records. wf_event r"
  have "members_of_response data = Inr (map resolved_entry records)"
    by (simp add: members_of_response_def chunk member_entries_wf [OF wf])
  with tok out show "fst (get_room_members srv m room_id) = map resolved_entry records"
    by (simp add: get_room_members_eq)
qed

lemma logged_in_token: "truthy (access_token logged_in)"
  by (simp add: logged_in_def py_str_def)

lemma fresh_token: "\<not> truthy (access_token fresh_manager)"
  by (simp add: fresh_manager_def new_manager_def)

lemma members_server_answer:
  "members_server (requests logged_in) (members_request logged_in room_id)
     = Response 200 (Some (JObj [(py_str ''chunk'', JArr example_records)]))"
  by (simp add: members_server_def members_request_def)

lemma example_chunk:
  "dict_get (JObj [(py_str ''chunk'', JArr example_records)]) (py_str ''chunk'') (JArr [])
     = Inr (JArr example_records)"
  by simp

lemma example_records_wf: "\<forall>r \<in> set example_records. wf_event r"
  by (simp add: example_records_def example_member_def example_member_without_name_def
      wf_event_def py_str_eq_iff)

lemma example_records_resolved:
  "map resolved_entry example_records
     = [JStr (py_str ''Kim''), JStr (py_str ''@lee:example.org''), JStr (py_str ''@ann:example.org'')]"
  by (simp add: example_records_def example_member_def example_member_without_name_def
      resolved_entry_def carried_def state_key_of_def py_str_eq_iff py_str_def)

text \<open>
  Claim C6, amended, on a manager without a token, on a server that raises, on a server that
  refuses, and on three records: one with a display name, one without, one with an empty
  display name.
\<close>

theorem members_resolved_witness:
  "\<not> truthy (access_token fresh_manager)
   \<and> get_room_members members_server fresh_manager (py_str ''!r:example.org'') = ([], fresh_manager)
   \<and> truthy (access_token logged_in)
   \<and> failing_server (requests logged_in) (members_request logged_in (py_str ''!r:example.org''))
       = ClientError
   \<and> fst (get_room_members failing_server logged_in (py_str ''!r:example.org'')) = []
   \<and> fst (get_room_members refusing_server logged_in (py_str ''!r:example.org'')) = []
   \<and> list_all wf_event example_records
   \<and> fst (get_room_members members_server logged_in (py_str ''!r:example.org''))
       = [JStr (py_str ''Kim''), JStr (py_str ''@lee:example.org''), JStr (py_str ''@ann:example.org'')]"
  using members_resolved [where m = fresh_manager and srv = members_server
      and room_id = "py_str ''!r:example.org''", THEN conjunct1]
    members_resolved [where m = logged_in and srv = failing_server
      and room_id = "py_str ''!r:example.org''", THEN conjunct2, THEN conjunct1]
    members_resolved [where m = logged_in and srv = refusing_server
      and room_id = "py_str ''!r:example.org''" and status = 403
      and body = "Some (JObj [(py_str ''errcode'', JStr (py_str ''M_FORBIDDEN'')),
                               (py_str ''error'', JStr (py_str ''Invalid username or password''))])",
      THEN conjunct2, THEN conjunct2, THEN conjunct1]
    members_resolved [where m = logged_in and srv = members_server
      and room_id = "py_str ''!r:example.org''"
      and data = "JObj [(py_str ''chunk'', JArr example_records)]" and records = example_records,
      THEN conjunct2, THEN conjunct2, THEN conjunct2]
  by (simp add: fresh_token logged_in_token members_server_answer example_records_wf
      example_records_resolved failing_server_def refusing_server_def list_all_iff
      del: dict_get.simps add: example_chunk)

subsection \<open>Synchronisation without a token\<close>

text \<open>
  Claim C7.  In every state of the manager without a truthy access token, \<open>sync\<close> returns
  \<open>None\<close> and leaves the manager as it is: no session is created and no request is sent.
\<close>

theorem sync_unauthenticated:
  assumes "\<not> truthy (access_token m)"
  shows "sync srv m timeout = (JNull, m) \<and> requests (snd (sync srv m timeout)) = requests m"
  using assms by (simp add: sync_def)

text \<open>
  Claim C7 on a manager that has never logged in.
\<close>

theorem sync_unauthenticated_witness:
  "\<not> truthy (access_token fresh_manager)
   \<and> sync members_server fresh_manager 30000 = (JNull, fresh_manager)
   \<and> requests (snd (sync members_server fresh_manager 30000)) = []"
  using sync_unauthenticated [OF fresh_token, of members_server 30000]
  by (simp add: fresh_token) (simp add: fresh_manager_def new_manager_def)

lemma sync_authenticated_requests:
  assumes "truthy (access_token m)"
  shows "\<exists>r. req_endpoint r = Sync \<and> requests (snd (sync srv m timeout)) = requests m @ [r]"
  using assms
  by (auto simp: sync_def send_def Let_def split: http_outcome.split option.split)

subsection \<open>Logout\<close>

lemma logout_without_token:
  "\<not> truthy (access_token m) \<Longrightarrow> logout srv m = m"
  by (simp add: logout_def)

lemma logout_with_token:
  assumes "truthy (access_token m)"
  shows "access_token (logout srv m) = JNull \<and> user_id (logout srv m) = JNull
       \<and> device_id (logout srv m) = JNull \<and> session (logout srv m) = Some Closed"
  using assms
  by (simp add: logout_def send_def get_session_def close_session_def Let_def)

lemma logout_idempotent: "logout srv' (logout srv m) = logout srv m"
proof (cases "truthy (access_token m)")
  case True
  then have "\<not> truthy (access_token (logout srv m))"
    by (simp add: logout_with_token)
  then show ?thesis by (rule logout_without_token)
next
  case False
  then show ?thesis by (simp add: logout_without_token)
qed

lemma failed_login_state:
  "login refusing_server fresh_manager (py_str ''@kim:example.org'') (py_str ''wrong'')
     = (False, failed_login)"
  "access_token failed_login = JNull" "session failed_login = Some Open"
  by (simp_all add: failed_login_def login_def send_def get_session_def refusing_server_def
      fresh_manager_def new_manager_def Let_def)

text \<open>
  Claim C8 fails on the code.  A login that the server refuses leaves the manager without a
  token and with an open session; \<open>logout\<close> then returns before its \<open>try\<close> block, and
  the session stays open.
\<close>

theorem logout_after_failed_login:
  "login refusing_server fresh_manager (py_str ''@kim:example.org'') (py_str ''wrong'')
     = (False, failed_login)
   \<and> access_token failed_login = JNull
   \<and> session failed_login = Some Open
   \<and> logout refusing_server failed_login = failed_login
   \<and> session (logout refusing_server failed_login) = Some Open"
  by (simp add: failed_login_state logout_without_token)

subsection \<open>The summaries that get_user_chats returns\<close>

lemma room_fields_Inr:
  assumes "room_fields room_data = Inr (a, lm)"
  shows "\<exists>events.
           state_events_of room_data = Inr events \<and> fold_state initial_state events = Inr a
         \<and> last_message_of room_data = Inr lm"
  using assms by (auto simp: room_fields_def bind_eq_Inr)

lemma rooms_loop_infos:
  assumes "rooms_loop srv m joined acc = (Inr rooms, m')"
  shows "\<exists>infos. rooms = acc @ infos \<and>
           list_all2 (\<lambda>jr info. \<exists>a lm mi.
               room_fields (snd jr) = Inr (a, lm) \<and>
               info = make_room_info (fst jr) a lm (fst (get_room_members srv mi (fst jr))))
             joined infos"
  using assms
proof (induction joined arbitrary: m acc)
  case Nil
  then show ?case by simp
next
  case (Cons jr rest)
  obtain room_id room_data where jr: "jr = (room_id, room_data)"
    by (cases jr)
  from Cons.prems obtain a lm where rf: "room_fields room_data = Inr (a, lm)"
    by (cases "room_fields room_data") (auto simp: jr)
  obtain members m1 where gm: "get_room_members srv m room_id = (members, m1)"
    by (cases "get_room_members srv m room_id")
  from Cons.prems have
    "rooms_loop srv m1 rest (acc @ [make_room_info room_id a lm members]) = (Inr rooms, m')"
    by (simp add: jr rf gm)
  from Cons.IH [OF this] obtain infos where
    rooms: "rooms = (acc @ [make_room_info room_id a lm members]) @ infos" and
    rest: "list_all2 (\<lambda>jr info. \<exists>a lm mi.
               room_fields (snd jr) = Inr (a, lm) \<and>
               info = make_room_info (fst jr) a lm (fst (get_room_members srv mi (fst jr))))
             rest infos"
    by blast
  have "members = fst (get_room_members srv m room_id)"
    by (simp add: gm)
  with rf have "\<exists>a' lm' mi. room_fields (snd jr) = Inr (a', lm') \<and>
      make_room_info room_id a lm members
        = make_room_info (fst jr) a' lm' (fst (get_room_members srv mi (fst jr)))"
    unfolding jr by auto
  with rest have "list_all2 (\<lambda>jr info. \<exists>a lm mi.
               room_fields (snd jr) = Inr (a, lm) \<and>
               info = make_room_info (fst jr) a lm (fst (get_room_members srv mi (fst jr))))
             (jr # rest) (make_room_info room_id a lm members # infos)"
    by simp
  with rooms show ?case
    by (intro exI [of _ "make_room_info room_id a lm members # infos"]) simp
qed

lemma list_all2_right_member:
  "list_all2 P xs ys \<Longrightarrow> y \<in> set ys \<Longrightarrow> \<exists>x \<in> set xs. P x y"
  by (induction rule: list_all2_induct) auto

lemma get_user_chats_infos:
  assumes "get_user_chats srv m = (rooms, m')" and "info \<in> set rooms"
  shows "\<exists>room_id room_data a lm mi.
           room_fields room_data = Inr (a, lm) \<and>
           info = make_room_info room_id a lm (fst (get_room_members srv mi room_id))"
proof -
  obtain sync_data m1 where sy: "sync srv m 30000 = (sync_data, m1)"
    by (cases "sync srv m 30000")
  from assms have tok: "truthy (access_token m)" and sd: "truthy sync_data"
    by (auto simp: get_user_chats_def sy split: if_splits)
  with assms obtain joined where jo: "joined_rooms_of sync_data = Inr joined"
    by (cases "joined_rooms_of sync_data") (auto simp: get_user_chats_def sy)
  obtain res m2 where lo: "rooms_loop srv m1 joined [] = (res, m2)"
    by (cases "rooms_loop srv m1 joined []")
  with assms tok sd jo sy have "res = Inr rooms"
    by (cases res) (auto simp: get_user_chats_def)
  with lo have "rooms_loop srv m1 joined [] = (Inr rooms, m2)"
    by simp
  from rooms_loop_infos [OF this] have
    "list_all2 (\<lambda>jr info. \<exists>a lm mi.
               room_fields (snd jr) = Inr (a, lm) \<and>
               info = make_room_info (fst jr) a lm (fst (get_room_members srv mi (fst jr))))
             joined rooms"
    by simp
  from list_all2_right_member [OF this assms(2)] obtain jr where "\<exists>a lm mi.
               room_fields (snd jr) = Inr (a, lm) \<and>
               info = make_room_info (fst jr) a lm (fst (get_room_members srv mi (fst jr)))"
    by blast
  then show ?thesis by blast
qed

end
